theory Spec2Isabelle
  imports Complex_Main
begin

section \<open>The JMESPath tree interpreter of \<^verbatim>\<open>jmespath/visitor.py\<close>\<close>

text \<open>
  The interpreter walks an expression tree (a Python dict with the keys \<^verbatim>\<open>type\<close>,
  \<^verbatim>\<open>value\<close> and \<^verbatim>\<open>children\<close>) over a decoded JSON document. The program runs on
  Python 2.7, and three pieces of the host language decide what the handlers return:
  \<^verbatim>\<open>==\<close>, the ordering operators of the \<^verbatim>\<open>operator\<close> module, and truthiness. They are
  modelled here for the values the interpreter handles, before the handlers themselves.
\<close>

subsection \<open>Exceptions\<close>

text \<open>
  Every exception that leaves a handler is a value. \<open>NotImplementedError\<close> is what
  \<^verbatim>\<open>default_visit\<close> raises; \<open>KeyError\<close>, \<open>IndexError\<close> and \<open>TypeError\<close> are the
  built-in exceptions of dict and list access; \<open>FunctionError\<close> stands for a failure of
  the function library. \<open>Unmodelled\<close> is not a Python exception: it marks the few host
  behaviours that depend on object identity or on memory addresses (comparing two
  \<^verbatim>\<open>_Expression\<close> objects, ordering two dicts), which this embedding does not track.
\<close>

datatype error =
    NotImplementedError
  | KeyError
  | IndexError
  | TypeError
  | FunctionError
  | Unmodelled

subsection \<open>Values and expression nodes\<close>

text \<open>
  A value is \<^verbatim>\<open>None\<close>, a \<^verbatim>\<open>bool\<close>, an \<^verbatim>\<open>int\<close> (unbounded), a finite \<^verbatim>\<open>float\<close>
  (its exact rational value; NaN and the infinities are left out), a string, a list, a
  dict with string keys, or an \<^verbatim>\<open>_Expression\<close> wrapping a node. A dict is an association
  list whose order is the dict's iteration order. A node carries its \<^verbatim>\<open>type\<close> tag, the
  optional \<^verbatim>\<open>value\<close> entry and its \<^verbatim>\<open>children\<close>.
\<close>

datatype pyval =
    VNone
  | VBool bool
  | VInt int
  | VFloat rat
  | VStr string
  | VList "pyval list"
  | VDict "(string \<times> pyval) list"
  | VExpr node
and node = Node (ntype: string) (nvalue: "pyval option") (children: "node list")

subsection \<open>Python equality\<close>

text \<open>
  \<^verbatim>\<open>x == y\<close>: numbers (booleans included, \<^verbatim>\<open>True == 1\<close>) compare by value, strings by
  content, lists element by element after a length check, dicts by looking every item of
  the left dict up in the right one. Values of different kinds are unequal.
\<close>

fun num_of :: "pyval \<Rightarrow> rat option" where
  "num_of (VBool b) = Some (if b then 1 else 0)"
| "num_of (VInt i) = Some (of_int i)"
| "num_of (VFloat r) = Some r"
| "num_of _ = None"

fun py_eq :: "pyval \<Rightarrow> pyval \<Rightarrow> error + bool"
and py_eq_list :: "pyval list \<Rightarrow> pyval list \<Rightarrow> error + bool"
and dict_equal :: "(string \<times> pyval) list \<Rightarrow> (string \<times> pyval) list \<Rightarrow> error + bool" where
  "py_eq VNone VNone = Inr True"
| "py_eq (VStr s) (VStr t) = Inr (s = t)"
| "py_eq (VList xs) (VList ys) =
     (if length xs \<noteq> length ys then Inr False else py_eq_list xs ys)"
| "py_eq (VDict a) (VDict b) =
     (if length a \<noteq> length b then Inr False else dict_equal a b)"
| "py_eq (VExpr a) (VExpr b) = Inl Unmodelled"
| "py_eq x y =
     (case num_of x of
        None \<Rightarrow> Inr False
      | Some a \<Rightarrow> (case num_of y of None \<Rightarrow> Inr False | Some b \<Rightarrow> Inr (a = b)))"
| "py_eq_list (x # xs) (y # ys) =
     (case py_eq x y of
        Inl e \<Rightarrow> Inl e
      | Inr k \<Rightarrow> if k then py_eq_list xs ys else Inr False)"
| "py_eq_list _ _ = Inr True"
| "dict_equal [] b = Inr True"
| "dict_equal ((key, aval) # rest) b =
     (case map_of b key of
        None \<Rightarrow> Inr False
      | Some bval \<Rightarrow>
          (case py_eq aval bval of
             Inl e \<Rightarrow> Inl e
           | Inr k \<Rightarrow> if k then dict_equal rest b else Inr False))"

subsection \<open>The type-aware equality of the interpreter\<close>

text \<open>
  \<^verbatim>\<open>x is 0\<close> holds exactly for the \<^verbatim>\<open>int\<close> object \<open>0\<close> (CPython keeps one object per small
  integer), \<^verbatim>\<open>y is True\<close> exactly for the boolean. \<^verbatim>\<open>_is_special_integer_case\<close> returns a
  boolean from its two branches and falls off the end (\<^verbatim>\<open>None\<close>) otherwise.
\<close>

fun is_special_integer_case :: "pyval \<Rightarrow> pyval \<Rightarrow> bool option" where
  "is_special_integer_case x y =
     (if x = VInt 0 \<or> x = VInt 1 then Some (y = VBool True \<or> y = VBool False)
      else if y = VInt 0 \<or> y = VInt 1 then Some (x = VBool True \<or> x = VBool False)
      else None)"

fun equals :: "pyval \<Rightarrow> pyval \<Rightarrow> error + bool" where
  "equals x y =
     (if is_special_integer_case x y = Some True then Inr False else py_eq x y)"


subsection \<open>Python 2 ordering\<close>

text \<open>
  \<^verbatim>\<open>operator.lt\<close>, \<^verbatim>\<open>le\<close>, \<^verbatim>\<open>gt\<close> and \<^verbatim>\<open>ge\<close> do not raise on these values in
  Python 2. Numbers compare by value and strings lexicographically; lists compare at the
  first pair of unequal elements, or by length. Values of different kinds are ordered by
  kind: \<^verbatim>\<open>None\<close> is smaller than everything, numbers come next, and all other values are
  ordered by the name of their type (\<open>_Expression < dict < list < str\<close>).
\<close>

datatype cmpop = Lt | Le | Gt | Ge

fun op3 :: "cmpop \<Rightarrow> int \<Rightarrow> bool" where
  "op3 Lt c = (c < 0)"
| "op3 Le c = (c \<le> 0)"
| "op3 Gt c = (c > 0)"
| "op3 Ge c = (c \<ge> 0)"

definition cmp3 :: "'a::linorder \<Rightarrow> 'a \<Rightarrow> int" where
  "cmp3 a b = (if a < b then - 1 else if a = b then 0 else 1)"

fun str_cmp :: "string \<Rightarrow> string \<Rightarrow> int" where
  "str_cmp [] [] = 0"
| "str_cmp [] (b # t) = - 1"
| "str_cmp (a # s) [] = 1"
| "str_cmp (a # s) (b # t) =
     (if (of_char a :: nat) < of_char b then - 1
      else if (of_char b :: nat) < of_char a then 1
      else str_cmp s t)"

fun kind_rank :: "pyval \<Rightarrow> nat" where
  "kind_rank VNone = 0"
| "kind_rank (VBool _) = 1"
| "kind_rank (VInt _) = 1"
| "kind_rank (VFloat _) = 1"
| "kind_rank (VExpr _) = 2"
| "kind_rank (VDict _) = 3"
| "kind_rank (VList _) = 4"
| "kind_rank (VStr _) = 5"

fun py_richcmp :: "cmpop \<Rightarrow> pyval \<Rightarrow> pyval \<Rightarrow> error + bool"
and list_richcompare :: "cmpop \<Rightarrow> pyval list \<Rightarrow> pyval list \<Rightarrow> error + bool" where
  "py_richcmp opr VNone VNone = Inr (op3 opr 0)"
| "py_richcmp opr (VStr s) (VStr t) = Inr (op3 opr (str_cmp s t))"
| "py_richcmp opr (VList xs) (VList ys) = list_richcompare opr xs ys"
| "py_richcmp opr (VDict a) (VDict b) = Inl Unmodelled"
| "py_richcmp opr (VExpr a) (VExpr b) = Inl Unmodelled"
| "py_richcmp opr x y =
     (case num_of x of
        None \<Rightarrow> Inr (op3 opr (cmp3 (kind_rank x) (kind_rank y)))
      | Some a \<Rightarrow>
          (case num_of y of
             None \<Rightarrow> Inr (op3 opr (cmp3 (kind_rank x) (kind_rank y)))
           | Some b \<Rightarrow> Inr (op3 opr (cmp3 a b))))"
| "list_richcompare opr (x # xs) (y # ys) =
     (case py_eq x y of
        Inl e \<Rightarrow> Inl e
      | Inr k \<Rightarrow> if k then list_richcompare opr xs ys else py_richcmp opr x y)"
| "list_richcompare opr xs ys = Inr (op3 opr (cmp3 (length xs) (length ys)))"

subsection \<open>Truthiness\<close>

fun py_bool :: "pyval \<Rightarrow> bool" where
  "py_bool VNone = False"
| "py_bool (VBool b) = b"
| "py_bool (VInt i) = (i \<noteq> 0)"
| "py_bool (VFloat r) = (r \<noteq> 0)"
| "py_bool (VStr s) = (s \<noteq> [])"
| "py_bool (VList xs) = (xs \<noteq> [])"
| "py_bool (VDict d) = (d \<noteq> [])"
| "py_bool (VExpr n) = True"

subsection \<open>The comparator table\<close>

fun not_equals :: "pyval \<Rightarrow> pyval \<Rightarrow> error + bool" where
  "not_equals x y = (case equals x y of Inl e \<Rightarrow> Inl e | Inr k \<Rightarrow> Inr (\<not> k))"

fun COMPARATOR_FUNC :: "string \<Rightarrow> (pyval \<Rightarrow> pyval \<Rightarrow> error + bool) option" where
  "COMPARATOR_FUNC name =
     (if name = ''le'' then Some (py_richcmp Le)
      else if name = ''ne'' then Some not_equals
      else if name = ''lt'' then Some (py_richcmp Lt)
      else if name = ''lte'' then Some (py_richcmp Le)
      else if name = ''eq'' then Some equals
      else if name = ''gt'' then Some (py_richcmp Gt)
      else if name = ''gte'' then Some (py_richcmp Ge)
      else None)"

fun comparator_lookup :: "pyval option \<Rightarrow> error + (pyval \<Rightarrow> pyval \<Rightarrow> error + bool)" where
  "comparator_lookup None = Inl KeyError"
| "comparator_lookup (Some (VStr name)) =
     (case COMPARATOR_FUNC name of None \<Rightarrow> Inl KeyError | Some f \<Rightarrow> Inr f)"
| "comparator_lookup (Some (VList _)) = Inl TypeError"
| "comparator_lookup (Some (VDict _)) = Inl TypeError"
| "comparator_lookup (Some _) = Inl KeyError"

subsection \<open>The falsy test of or-expressions\<close>

text \<open>
  \<^verbatim>\<open>value == '' or value == [] or value == {} or value is None or value is False\<close>
\<close>

fun is_false :: "pyval \<Rightarrow> error + bool" where
  "is_false v =
     (case py_eq v (VStr []) of Inl e \<Rightarrow> Inl e | Inr k1 \<Rightarrow>
        if k1 then Inr True else
     (case py_eq v (VList []) of Inl e \<Rightarrow> Inl e | Inr k2 \<Rightarrow>
        if k2 then Inr True else
     (case py_eq v (VDict []) of Inl e \<Rightarrow> Inl e | Inr k3 \<Rightarrow>
        if k3 then Inr True else Inr (v = VNone \<or> v = VBool False))))"

subsection \<open>Container access\<close>

text \<open>
  \<open>child cs i\<close> is \<^verbatim>\<open>node['children'][i]\<close> for a literal index \<open>i\<close>; \<open>dict_get\<close> is
  \<^verbatim>\<open>value.get(key)\<close> (an unhashable key raises); \<open>dict_set\<close> is \<^verbatim>\<open>collected[key] = v\<close>;
  \<open>list_getitem\<close> is \<^verbatim>\<open>value[index]\<close> with Python's negative indices.
\<close>

fun child :: "node list \<Rightarrow> nat \<Rightarrow> error + node" where
  "child cs i = (if i < length cs then Inr (cs ! i) else Inl IndexError)"

fun dict_get :: "(string \<times> pyval) list \<Rightarrow> pyval \<Rightarrow> error + pyval" where
  "dict_get d (VStr s) = Inr (case map_of d s of None \<Rightarrow> VNone | Some x \<Rightarrow> x)"
| "dict_get d (VList _) = Inl TypeError"
| "dict_get d (VDict _) = Inl TypeError"
| "dict_get d _ = Inr VNone"

fun dict_set :: "(string \<times> pyval) list \<Rightarrow> string \<Rightarrow> pyval \<Rightarrow> (string \<times> pyval) list" where
  "dict_set [] k v = [(k, v)]"
| "dict_set ((k', v') # d) k v = (if k' = k then (k, v) # d else (k', v') # dict_set d k v)"

fun list_index :: "pyval list \<Rightarrow> int \<Rightarrow> error + pyval" where
  "list_index xs i =
     (let n = int (length xs); j = (if i < 0 then i + n else i)
      in if 0 \<le> j \<and> j < n then Inr (xs ! nat j) else Inl IndexError)"

fun list_getitem :: "pyval list \<Rightarrow> pyval \<Rightarrow> error + pyval" where
  "list_getitem xs (VInt i) = list_index xs i"
| "list_getitem xs (VBool b) = list_index xs (if b then 1 else 0)"
| "list_getitem xs _ = Inl TypeError"

subsection \<open>Handlers that do not recurse\<close>

fun visit_field :: "node \<Rightarrow> pyval \<Rightarrow> error + pyval" where
  "visit_field node (VDict d) =
     (case nvalue node of None \<Rightarrow> Inl KeyError | Some key \<Rightarrow> dict_get d key)"
| "visit_field node _ = Inr VNone"

fun visit_current :: "node \<Rightarrow> pyval \<Rightarrow> error + pyval" where
  "visit_current node val = Inr val"

fun visit_expref :: "node \<Rightarrow> pyval \<Rightarrow> error + pyval" where
  "visit_expref node val =
     (case child (children node) 0 of Inl e \<Rightarrow> Inl e | Inr c \<Rightarrow> Inr (VExpr c))"

fun visit_identity :: "node \<Rightarrow> pyval \<Rightarrow> error + pyval" where
  "visit_identity node val = Inr val"

fun visit_index :: "node \<Rightarrow> pyval \<Rightarrow> error + pyval" where
  "visit_index node (VList xs) =
     (case nvalue node of
        None \<Rightarrow> Inl KeyError
      | Some idx \<Rightarrow>
          (case list_getitem xs idx of
             Inl e \<Rightarrow> if e = IndexError then Inr VNone else Inl e
           | Inr x \<Rightarrow> Inr x))"
| "visit_index node _ = Inr VNone"

fun visit_literal :: "node \<Rightarrow> pyval \<Rightarrow> error + pyval" where
  "visit_literal node val = (case nvalue node of None \<Rightarrow> Inl KeyError | Some v \<Rightarrow> Inr v)"

fun merge_elements :: "pyval list \<Rightarrow> pyval list \<Rightarrow> pyval list" where
  "merge_elements [] merged_list = merged_list"
| "merge_elements (VList ys # rest) merged_list = merge_elements rest (merged_list @ ys)"
| "merge_elements (element # rest) merged_list = merge_elements rest (merged_list @ [element])"

subsection \<open>Handlers that visit children\<close>

text \<open>
  A handler calls \<^verbatim>\<open>self.visit\<close> on child nodes; here it receives that function as
  \<open>self_visit\<close>. Each \<^verbatim>\<open>for\<close> loop is a recursive function over the list it iterates,
  with the list being built as an accumulator. The function library
  (\<^verbatim>\<open>self._functions.call_function\<close>) is a parameter: any function from a name and the
  resolved arguments to a value or an exception.
\<close>

type_synonym result = "error + pyval"
type_synonym visitor = "node \<Rightarrow> pyval \<Rightarrow> result"
type_synonym call_function = "pyval \<Rightarrow> pyval list \<Rightarrow> result"

fun sub_expression_loop :: "visitor \<Rightarrow> node list \<Rightarrow> pyval \<Rightarrow> result" where
  "sub_expression_loop self_visit [] result = Inr result"
| "sub_expression_loop self_visit (n # rest) result =
     (case self_visit n result of
        Inl e \<Rightarrow> Inl e
      | Inr result' \<Rightarrow> sub_expression_loop self_visit rest result')"

fun visit_sub_expression :: "visitor \<Rightarrow> node \<Rightarrow> pyval \<Rightarrow> result" where
  "visit_sub_expression self_visit node val = sub_expression_loop self_visit (children node) val"

fun visit_comparator :: "visitor \<Rightarrow> node \<Rightarrow> pyval \<Rightarrow> result" where
  "visit_comparator self_visit node val =
     (case comparator_lookup (nvalue node) of
        Inl e \<Rightarrow> Inl e
      | Inr comparator_func \<Rightarrow>
          (case child (children node) 0 of
             Inl e \<Rightarrow> Inl e
           | Inr c0 \<Rightarrow>
               (case self_visit c0 val of
                  Inl e \<Rightarrow> Inl e
                | Inr x \<Rightarrow>
                    (case child (children node) 1 of
                       Inl e \<Rightarrow> Inl e
                     | Inr c1 \<Rightarrow>
                         (case self_visit c1 val of
                            Inl e \<Rightarrow> Inl e
                          | Inr y \<Rightarrow>
                              (case comparator_func x y of
                                 Inl e \<Rightarrow> Inl e
                               | Inr k \<Rightarrow> Inr (VBool k)))))))"

fun function_expression_loop ::
  "visitor \<Rightarrow> node list \<Rightarrow> pyval \<Rightarrow> pyval list \<Rightarrow> error + pyval list" where
  "function_expression_loop self_visit [] val resolved_args = Inr resolved_args"
| "function_expression_loop self_visit (c # rest) val resolved_args =
     (case self_visit c val of
        Inl e \<Rightarrow> Inl e
      | Inr current \<Rightarrow>
          function_expression_loop self_visit rest val (resolved_args @ [current]))"

fun visit_function_expression ::
  "call_function \<Rightarrow> visitor \<Rightarrow> node \<Rightarrow> pyval \<Rightarrow> result" where
  "visit_function_expression cf self_visit node val =
     (case function_expression_loop self_visit (children node) val [] of
        Inl e \<Rightarrow> Inl e
      | Inr resolved_args \<Rightarrow>
          (case nvalue node of
             None \<Rightarrow> Inl KeyError
           | Some name \<Rightarrow> cf name resolved_args))"

fun filter_projection_loop ::
  "visitor \<Rightarrow> node \<Rightarrow> node list \<Rightarrow> pyval list \<Rightarrow> pyval list \<Rightarrow> error + pyval list" where
  "filter_projection_loop self_visit comparator_node cs [] collected = Inr collected"
| "filter_projection_loop self_visit comparator_node cs (element # rest) collected =
     (case self_visit comparator_node element of
        Inl e \<Rightarrow> Inl e
      | Inr p \<Rightarrow>
          if py_bool p then
            (case child cs 1 of
               Inl e \<Rightarrow> Inl e
             | Inr c1 \<Rightarrow>
                 (case self_visit c1 element of
                    Inl e \<Rightarrow> Inl e
                  | Inr current \<Rightarrow>
                      if current \<noteq> VNone
                      then filter_projection_loop self_visit comparator_node cs rest
                             (collected @ [current])
                      else filter_projection_loop self_visit comparator_node cs rest collected))
          else filter_projection_loop self_visit comparator_node cs rest collected)"

fun visit_filter_projection :: "visitor \<Rightarrow> node \<Rightarrow> pyval \<Rightarrow> result" where
  "visit_filter_projection self_visit node val =
     (case child (children node) 0 of
        Inl e \<Rightarrow> Inl e
      | Inr c0 \<Rightarrow>
          (case self_visit c0 val of
             Inl e \<Rightarrow> Inl e
           | Inr base \<Rightarrow>
               (case base of
                  VList elements \<Rightarrow>
                    (case child (children node) 2 of
                       Inl e \<Rightarrow> Inl e
                     | Inr comparator_node \<Rightarrow>
                         (case filter_projection_loop self_visit comparator_node
                                 (children node) elements [] of
                            Inl e \<Rightarrow> Inl e
                          | Inr collected \<Rightarrow> Inr (VList collected)))
                | _ \<Rightarrow> Inr VNone)))"

fun visit_flatten :: "visitor \<Rightarrow> node \<Rightarrow> pyval \<Rightarrow> result" where
  "visit_flatten self_visit node val =
     (case child (children node) 0 of
        Inl e \<Rightarrow> Inl e
      | Inr c0 \<Rightarrow>
          (case self_visit c0 val of
             Inl e \<Rightarrow> Inl e
           | Inr base \<Rightarrow>
               (case base of
                  VList elements \<Rightarrow> Inr (VList (merge_elements elements []))
                | _ \<Rightarrow> Inr VNone)))"

fun index_expression_loop :: "visitor \<Rightarrow> node list \<Rightarrow> pyval \<Rightarrow> result" where
  "index_expression_loop self_visit [] result = Inr result"
| "index_expression_loop self_visit (n # rest) result =
     (case self_visit n result of
        Inl e \<Rightarrow> Inl e
      | Inr result' \<Rightarrow> index_expression_loop self_visit rest result')"

fun visit_index_expression :: "visitor \<Rightarrow> node \<Rightarrow> pyval \<Rightarrow> result" where
  "visit_index_expression self_visit node val =
     index_expression_loop self_visit (children node) val"

fun visit_key_val_pair :: "visitor \<Rightarrow> node \<Rightarrow> pyval \<Rightarrow> result" where
  "visit_key_val_pair self_visit node val =
     (case child (children node) 0 of Inl e \<Rightarrow> Inl e | Inr c0 \<Rightarrow> self_visit c0 val)"

fun multi_select_dict_loop ::
  "visitor \<Rightarrow> node list \<Rightarrow> pyval \<Rightarrow> (string \<times> pyval) list
    \<Rightarrow> error + (string \<times> pyval) list" where
  "multi_select_dict_loop self_visit [] val collected = Inr collected"
| "multi_select_dict_loop self_visit (c # rest) val collected =
     (case self_visit c val of
        Inl e \<Rightarrow> Inl e
      | Inr x \<Rightarrow>
          (case nvalue c of
             None \<Rightarrow> Inl KeyError
           | Some (VStr key) \<Rightarrow>
               multi_select_dict_loop self_visit rest val (dict_set collected key x)
           | Some (VList _) \<Rightarrow> Inl TypeError
           | Some (VDict _) \<Rightarrow> Inl TypeError
           | Some _ \<Rightarrow> Inl Unmodelled))"

fun visit_multi_select_dict :: "visitor \<Rightarrow> node \<Rightarrow> pyval \<Rightarrow> result" where
  "visit_multi_select_dict self_visit node val =
     (if val = VNone then Inr VNone
      else
        (case multi_select_dict_loop self_visit (children node) val [] of
           Inl e \<Rightarrow> Inl e
         | Inr collected \<Rightarrow> Inr (VDict collected)))"

fun multi_select_list_loop ::
  "visitor \<Rightarrow> node list \<Rightarrow> pyval \<Rightarrow> pyval list \<Rightarrow> error + pyval list" where
  "multi_select_list_loop self_visit [] val collected = Inr collected"
| "multi_select_list_loop self_visit (c # rest) val collected =
     (case self_visit c val of
        Inl e \<Rightarrow> Inl e
      | Inr x \<Rightarrow> multi_select_list_loop self_visit rest val (collected @ [x]))"

fun visit_multi_select_list :: "visitor \<Rightarrow> node \<Rightarrow> pyval \<Rightarrow> result" where
  "visit_multi_select_list self_visit node val =
     (if val = VNone then Inr VNone
      else
        (case multi_select_list_loop self_visit (children node) val [] of
           Inl e \<Rightarrow> Inl e
         | Inr collected \<Rightarrow> Inr (VList collected)))"

fun visit_or_expression :: "visitor \<Rightarrow> node \<Rightarrow> pyval \<Rightarrow> result" where
  "visit_or_expression self_visit node val =
     (case child (children node) 0 of
        Inl e \<Rightarrow> Inl e
      | Inr c0 \<Rightarrow>
          (case self_visit c0 val of
             Inl e \<Rightarrow> Inl e
           | Inr matched \<Rightarrow>
               (case is_false matched of
                  Inl e \<Rightarrow> Inl e
                | Inr k \<Rightarrow>
                    if k then
                      (case child (children node) 1 of
                         Inl e \<Rightarrow> Inl e
                       | Inr c1 \<Rightarrow> self_visit c1 val)
                    else Inr matched)))"

fun pipe_loop :: "visitor \<Rightarrow> node list \<Rightarrow> pyval \<Rightarrow> result" where
  "pipe_loop self_visit [] result = Inr result"
| "pipe_loop self_visit (n # rest) result =
     (case self_visit n result of
        Inl e \<Rightarrow> Inl e
      | Inr result' \<Rightarrow> pipe_loop self_visit rest result')"

fun visit_pipe :: "visitor \<Rightarrow> node \<Rightarrow> pyval \<Rightarrow> result" where
  "visit_pipe self_visit node val = pipe_loop self_visit (children node) val"

fun projection_loop ::
  "visitor \<Rightarrow> node list \<Rightarrow> pyval list \<Rightarrow> pyval list \<Rightarrow> error + pyval list" where
  "projection_loop self_visit cs [] collected = Inr collected"
| "projection_loop self_visit cs (element # rest) collected =
     (case child cs 1 of
        Inl e \<Rightarrow> Inl e
      | Inr c1 \<Rightarrow>
          (case self_visit c1 element of
             Inl e \<Rightarrow> Inl e
           | Inr current \<Rightarrow>
               if current \<noteq> VNone
               then projection_loop self_visit cs rest (collected @ [current])
               else projection_loop self_visit cs rest collected))"

fun visit_projection :: "visitor \<Rightarrow> node \<Rightarrow> pyval \<Rightarrow> result" where
  "visit_projection self_visit node val =
     (case child (children node) 0 of
        Inl e \<Rightarrow> Inl e
      | Inr c0 \<Rightarrow>
          (case self_visit c0 val of
             Inl e \<Rightarrow> Inl e
           | Inr base \<Rightarrow>
               (case base of
                  VList elements \<Rightarrow>
                    (case projection_loop self_visit (children node) elements [] of
                       Inl e \<Rightarrow> Inl e
                     | Inr collected \<Rightarrow> Inr (VList collected))
                | _ \<Rightarrow> Inr VNone)))"

fun value_projection_loop ::
  "visitor \<Rightarrow> node list \<Rightarrow> pyval list \<Rightarrow> pyval list \<Rightarrow> error + pyval list" where
  "value_projection_loop self_visit cs [] collected = Inr collected"
| "value_projection_loop self_visit cs (element # rest) collected =
     (case child cs 1 of
        Inl e \<Rightarrow> Inl e
      | Inr c1 \<Rightarrow>
          (case self_visit c1 element of
             Inl e \<Rightarrow> Inl e
           | Inr current \<Rightarrow>
               if current \<noteq> VNone
               then value_projection_loop self_visit cs rest (collected @ [current])
               else value_projection_loop self_visit cs rest collected))"

fun visit_value_projection :: "visitor \<Rightarrow> node \<Rightarrow> pyval \<Rightarrow> result" where
  "visit_value_projection self_visit node val =
     (case child (children node) 0 of
        Inl e \<Rightarrow> Inl e
      | Inr c0 \<Rightarrow>
          (case self_visit c0 val of
             Inl e \<Rightarrow> Inl e
           | Inr base \<Rightarrow>
               (case base of
                  VDict d \<Rightarrow>
                    (case value_projection_loop self_visit (children node) (map snd d) [] of
                       Inl e \<Rightarrow> Inl e
                     | Inr collected \<Rightarrow> Inr (VList collected))
                | _ \<Rightarrow> Inr VNone)))"

subsection \<open>Dispatch\<close>

text \<open>
  \<^verbatim>\<open>Visitor.visit\<close> resolves \<^verbatim>\<open>'visit_%s' % node['type']\<close> with \<^verbatim>\<open>getattr\<close> and falls
  back to \<^verbatim>\<open>default_visit\<close>. The method cache only memoises this lookup and is left out.
\<close>

fun default_visit :: "node \<Rightarrow> pyval \<Rightarrow> result" where
  "default_visit node val = Inl NotImplementedError"

definition dispatch :: "call_function \<Rightarrow> visitor \<Rightarrow> node \<Rightarrow> pyval \<Rightarrow> result" where
  "dispatch cf self_visit node val =
     (let node_type = ntype node in
      if node_type = ''sub_expression'' then visit_sub_expression self_visit node val
      else if node_type = ''field'' then visit_field node val
      else if node_type = ''comparator'' then visit_comparator self_visit node val
      else if node_type = ''current'' then visit_current node val
      else if node_type = ''expref'' then visit_expref node val
      else if node_type = ''function_expression''
        then visit_function_expression cf self_visit node val
      else if node_type = ''filter_projection'' then visit_filter_projection self_visit node val
      else if node_type = ''flatten'' then visit_flatten self_visit node val
      else if node_type = ''identity'' then visit_identity node val
      else if node_type = ''index'' then visit_index node val
      else if node_type = ''index_expression'' then visit_index_expression self_visit node val
      else if node_type = ''key_val_pair'' then visit_key_val_pair self_visit node val
      else if node_type = ''literal'' then visit_literal node val
      else if node_type = ''multi_select_dict'' then visit_multi_select_dict self_visit node val
      else if node_type = ''multi_select_list'' then visit_multi_select_list self_visit node val
      else if node_type = ''or_expression'' then visit_or_expression self_visit node val
      else if node_type = ''pipe'' then visit_pipe self_visit node val
      else if node_type = ''projection'' then visit_projection self_visit node val
      else if node_type = ''value_projection'' then visit_value_projection self_visit node val
      else default_visit node val)"

text \<open>
  \<open>visit\<close> ties the knot. The handlers only ever visit children of the node at hand;
  writing that restriction into the recursive call makes the recursion structural, and
  \<open>visit_unfold\<close> below shows that it changes nothing:
  \<open>visit cf node val = dispatch cf (visit cf) node val\<close>.
\<close>

fun visit :: "call_function \<Rightarrow> node \<Rightarrow> pyval \<Rightarrow> result" where
  "visit cf (Node t v cs) val =
     dispatch cf
       (\<lambda>n w. if n \<in> set cs then visit cf n w else Inl Unmodelled)
       (Node t v cs) val"

declare visit.simps [simp del]

subsection \<open>Vocabulary of the statements\<close>

text \<open>\<^verbatim>\<open>isinstance(x, list)\<close> and "has the dict methods \<^verbatim>\<open>get\<close> and \<^verbatim>\<open>values\<close>".\<close>

fun is_list :: "pyval \<Rightarrow> bool" where
  "is_list (VList xs) = True"
| "is_list _ = False"

fun is_dict :: "pyval \<Rightarrow> bool" where
  "is_dict (VDict d) = True"
| "is_dict _ = False"

text \<open>The falsy set of the specification: \<open>"", [], {}, null, false\<close>.\<close>

definition falsy_values :: "pyval list" where
  "falsy_values = [VStr [], VList [], VDict [], VNone, VBool False]"

text \<open>The tags for which \<^verbatim>\<open>TreeInterpreter\<close> has a \<^verbatim>\<open>visit_\<close> method.\<close>

definition node_kinds :: "string list" where
  "node_kinds =
     [''sub_expression'', ''field'', ''comparator'', ''current'', ''expref'',
      ''function_expression'', ''filter_projection'', ''flatten'', ''identity'', ''index'',
      ''index_expression'', ''key_val_pair'', ''literal'', ''multi_select_dict'',
      ''multi_select_list'', ''or_expression'', ''pipe'', ''projection'',
      ''value_projection'']"

text \<open>
  The chaining rule in the words of the specification: evaluate the children left to
  right, feeding each child's output to the next child, and return the last output; an
  exception ends the chain.
\<close>

definition spec_chain :: "visitor \<Rightarrow> node list \<Rightarrow> pyval \<Rightarrow> result" where
  "spec_chain self_visit cs val =
     foldl (\<lambda>r c. case r of Inl e \<Rightarrow> Inl e | Inr x \<Rightarrow> self_visit c x) (Inr val) cs"

text \<open>
  Modelled from the spec: the tree builder (\<^verbatim>\<open>jmespath/ast.py\<close>) is not among the sources.
  These constructors build nodes with the entries the handlers read: a field name, an
  index, a literal value or a comparator name under \<^verbatim>\<open>value\<close>, the operands under
  \<^verbatim>\<open>children\<close>.
\<close>

definition field :: "string \<Rightarrow> node" where
  "field name = Node ''field'' (Some (VStr name)) []"

definition literal :: "pyval \<Rightarrow> node" where
  "literal v = Node ''literal'' (Some v) []"

definition identity :: node where
  "identity = Node ''identity'' None []"

definition comparator :: "string \<Rightarrow> node \<Rightarrow> node \<Rightarrow> node" where
  "comparator name first second = Node ''comparator'' (Some (VStr name)) [first, second]"

definition or_expression :: "node \<Rightarrow> node \<Rightarrow> node" where
  "or_expression left right = Node ''or_expression'' None [left, right]"

definition filter_projection :: "node \<Rightarrow> node \<Rightarrow> node \<Rightarrow> node" where
  "filter_projection left right comparator_node =
     Node ''filter_projection'' None [left, right, comparator_node]"

definition multi_select_list :: "node list \<Rightarrow> node" where
  "multi_select_list nodes = Node ''multi_select_list'' None nodes"

text \<open>
  Modelled from the spec: the function library (\<^verbatim>\<open>jmespath/functions.py\<close>) is not among
  the sources. \<open>no_functions\<close> is a library with no registered function: every call
  fails with a function error. It instantiates the parameter in closed examples.
\<close>

definition no_functions :: call_function where
  "no_functions name args = Inl FunctionError"

section \<open>The recursion equation of \<open>visit\<close>\<close>

text \<open>
  A handler depends on \<open>self_visit\<close> only at the children of its node, so the
  restriction written into \<open>visit\<close> is invisible.
\<close>

lemma child_mem: "child cs i = Inr c \<Longrightarrow> c \<in> set cs"
  by (auto split: if_splits)

lemma sub_expression_loop_cong:
  "(\<And>c. c \<in> set cs \<Longrightarrow> f c = g c) \<Longrightarrow> sub_expression_loop f cs r = sub_expression_loop g cs r"
  by (induction cs arbitrary: r) (auto split: sum.splits)

lemma multi_select_dict_loop_cong:
  "(\<And>c. c \<in> set cs \<Longrightarrow> f c = g c) \<Longrightarrow>
   multi_select_dict_loop f cs v acc = multi_select_dict_loop g cs v acc"
  by (induction cs arbitrary: acc) (auto split: sum.splits option.splits pyval.splits)

lemma projection_loop_cong:
  "(\<And>c. c \<in> set cs \<Longrightarrow> f c = g c) \<Longrightarrow>
   projection_loop f cs es acc = projection_loop g cs es acc"
  by (induction es arbitrary: acc)
     (auto split: sum.splits dest: child_mem simp del: child.simps)

lemma filter_projection_loop_cong:
  "(\<And>c. c \<in> set cs \<Longrightarrow> f c = g c) \<Longrightarrow> f cn = g cn \<Longrightarrow>
   filter_projection_loop f cn cs es acc = filter_projection_loop g cn cs es acc"
  by (induction es arbitrary: acc)
     (auto split: sum.splits dest: child_mem simp del: child.simps)


lemma index_expression_loop_cong:
  "(\<And>c. c \<in> set cs \<Longrightarrow> f c = g c) \<Longrightarrow> index_expression_loop f cs r = index_expression_loop g cs r"
  by (induction cs arbitrary: r) (auto split: sum.splits)

lemma pipe_loop_cong:
  "(\<And>c. c \<in> set cs \<Longrightarrow> f c = g c) \<Longrightarrow> pipe_loop f cs r = pipe_loop g cs r"
  by (induction cs arbitrary: r) (auto split: sum.splits)

lemma function_expression_loop_cong:
  "(\<And>c. c \<in> set cs \<Longrightarrow> f c = g c) \<Longrightarrow>
   function_expression_loop f cs v acc = function_expression_loop g cs v acc"
  by (induction cs arbitrary: acc) (auto split: sum.splits)

lemma multi_select_list_loop_cong:
  "(\<And>c. c \<in> set cs \<Longrightarrow> f c = g c) \<Longrightarrow>
   multi_select_list_loop f cs v acc = multi_select_list_loop g cs v acc"
  by (induction cs arbitrary: acc) (auto split: sum.splits)

lemma value_projection_loop_cong:
  "(\<And>c. c \<in> set cs \<Longrightarrow> f c = g c) \<Longrightarrow>
   value_projection_loop f cs es acc = value_projection_loop g cs es acc"
  by (induction es arbitrary: acc)
     (auto split: sum.splits dest: child_mem simp del: child.simps)

lemma visit_comparator_cong:
  assumes "\<And>c. c \<in> set (children node) \<Longrightarrow> f c = g c"
  shows "visit_comparator f node val = visit_comparator g node val"
proof -
  have c0: "\<And>c. child (children node) 0 = Inr c \<Longrightarrow> f c = g c"
    using assms child_mem by blast
  have c1: "\<And>c. child (children node) 1 = Inr c \<Longrightarrow> f c = g c"
    using assms child_mem by blast
  have c2: "\<And>c. child (children node) 2 = Inr c \<Longrightarrow> f c = g c"
    using assms child_mem by blast
  show ?thesis
    by (simp add: c0 c1 c2 cong: sum.case_cong
          del: child.simps is_false.simps One_nat_def)
qed

lemma visit_filter_projection_cong:
  assumes "\<And>c. c \<in> set (children node) \<Longrightarrow> f c = g c"
  shows "visit_filter_projection f node val = visit_filter_projection g node val"
proof -
  have c0: "\<And>c. child (children node) 0 = Inr c \<Longrightarrow> f c = g c"
    using assms child_mem by blast
  have c1: "\<And>c. child (children node) 1 = Inr c \<Longrightarrow> f c = g c"
    using assms child_mem by blast
  have c2: "\<And>c. child (children node) 2 = Inr c \<Longrightarrow> f c = g c"
    using assms child_mem by blast
  have lp: "\<And>cn es. f cn = g cn \<Longrightarrow> filter_projection_loop f cn (children node) es [] =
      filter_projection_loop g cn (children node) es []"
    using assms by (rule filter_projection_loop_cong)
  show ?thesis
    by (simp add: c0 c1 c2 lp cong: sum.case_cong pyval.case_cong
          del: child.simps is_false.simps One_nat_def)
qed

lemma visit_or_expression_cong:
  assumes "\<And>c. c \<in> set (children node) \<Longrightarrow> f c = g c"
  shows "visit_or_expression f node val = visit_or_expression g node val"
proof -
  have c0: "\<And>c. child (children node) 0 = Inr c \<Longrightarrow> f c = g c"
    using assms child_mem by blast
  have c1: "\<And>c. child (children node) 1 = Inr c \<Longrightarrow> f c = g c"
    using assms child_mem by blast
  have c2: "\<And>c. child (children node) 2 = Inr c \<Longrightarrow> f c = g c"
    using assms child_mem by blast
  show ?thesis
    by (simp add: c0 c1 c2 cong: sum.case_cong if_cong
          del: child.simps is_false.simps One_nat_def)
qed

lemma visit_projection_cong:
  assumes "\<And>c. c \<in> set (children node) \<Longrightarrow> f c = g c"
  shows "visit_projection f node val = visit_projection g node val"
proof -
  have c0: "\<And>c. child (children node) 0 = Inr c \<Longrightarrow> f c = g c"
    using assms child_mem by blast
  have c1: "\<And>c. child (children node) 1 = Inr c \<Longrightarrow> f c = g c"
    using assms child_mem by blast
  have c2: "\<And>c. child (children node) 2 = Inr c \<Longrightarrow> f c = g c"
    using assms child_mem by blast
  have lp: "\<And>es. projection_loop f (children node) es [] =
      projection_loop g (children node) es []"
    using assms by (rule projection_loop_cong)
  show ?thesis
    by (simp add: c0 c1 c2 lp cong: sum.case_cong pyval.case_cong
          del: child.simps is_false.simps One_nat_def)
qed

lemma visit_value_projection_cong:
  assumes "\<And>c. c \<in> set (children node) \<Longrightarrow> f c = g c"
  shows "visit_value_projection f node val = visit_value_projection g node val"
proof -
  have c0: "\<And>c. child (children node) 0 = Inr c \<Longrightarrow> f c = g c"
    using assms child_mem by blast
  have c1: "\<And>c. child (children node) 1 = Inr c \<Longrightarrow> f c = g c"
    using assms child_mem by blast
  have c2: "\<And>c. child (children node) 2 = Inr c \<Longrightarrow> f c = g c"
    using assms child_mem by blast
  have lp: "\<And>es. value_projection_loop f (children node) es [] =
      value_projection_loop g (children node) es []"
    using assms by (rule value_projection_loop_cong)
  show ?thesis
    by (simp add: c0 c1 c2 lp cong: sum.case_cong pyval.case_cong
          del: child.simps is_false.simps One_nat_def)
qed

lemma visit_flatten_cong:
  assumes "\<And>c. c \<in> set (children node) \<Longrightarrow> f c = g c"
  shows "visit_flatten f node val = visit_flatten g node val"
proof -
  have c0: "\<And>c. child (children node) 0 = Inr c \<Longrightarrow> f c = g c"
    using assms child_mem by blast
  have c1: "\<And>c. child (children node) 1 = Inr c \<Longrightarrow> f c = g c"
    using assms child_mem by blast
  have c2: "\<And>c. child (children node) 2 = Inr c \<Longrightarrow> f c = g c"
    using assms child_mem by blast
  show ?thesis
    by (simp add: c0 c1 c2 cong: sum.case_cong pyval.case_cong
          del: child.simps is_false.simps One_nat_def)
qed

lemma visit_key_val_pair_cong:
  assumes "\<And>c. c \<in> set (children node) \<Longrightarrow> f c = g c"
  shows "visit_key_val_pair f node val = visit_key_val_pair g node val"
proof -
  have c0: "\<And>c. child (children node) 0 = Inr c \<Longrightarrow> f c = g c"
    using assms child_mem by blast
  have c1: "\<And>c. child (children node) 1 = Inr c \<Longrightarrow> f c = g c"
    using assms child_mem by blast
  have c2: "\<And>c. child (children node) 2 = Inr c \<Longrightarrow> f c = g c"
    using assms child_mem by blast
  show ?thesis
    by (simp add: c0 c1 c2 cong: sum.case_cong
          del: child.simps is_false.simps One_nat_def)
qed

lemma dispatch_cong:
  assumes "\<And>c. c \<in> set (children node) \<Longrightarrow> f c = g c"
  shows "dispatch cf f node val = dispatch cf g node val"
proof -
  have a: "visit_sub_expression f node val = visit_sub_expression g node val"
    unfolding visit_sub_expression.simps by (rule sub_expression_loop_cong) (rule assms)
  have b: "visit_comparator f node val = visit_comparator g node val"
    using assms by (rule visit_comparator_cong)
  have "\<And>acc. function_expression_loop f (children node) val acc =
              function_expression_loop g (children node) val acc"
    using assms by (rule function_expression_loop_cong)
  then have c: "visit_function_expression cf f node val =
                visit_function_expression cf g node val"
    by simp
  have d: "visit_filter_projection f node val = visit_filter_projection g node val"
    using assms by (rule visit_filter_projection_cong)
  have e: "visit_flatten f node val = visit_flatten g node val"
    using assms by (rule visit_flatten_cong)
  have f': "visit_index_expression f node val = visit_index_expression g node val"
    unfolding visit_index_expression.simps by (rule index_expression_loop_cong) (rule assms)
  have g': "visit_key_val_pair f node val = visit_key_val_pair g node val"
    using assms by (rule visit_key_val_pair_cong)
  have "\<And>acc. multi_select_dict_loop f (children node) val acc =
              multi_select_dict_loop g (children node) val acc"
    using assms by (rule multi_select_dict_loop_cong)
  then have h: "visit_multi_select_dict f node val = visit_multi_select_dict g node val"
    by simp
  have "\<And>acc. multi_select_list_loop f (children node) val acc =
              multi_select_list_loop g (children node) val acc"
    using assms by (rule multi_select_list_loop_cong)
  then have i: "visit_multi_select_list f node val = visit_multi_select_list g node val"
    by simp
  have j: "visit_or_expression f node val = visit_or_expression g node val"
    using assms by (rule visit_or_expression_cong)
  have k: "visit_pipe f node val = visit_pipe g node val"
    unfolding visit_pipe.simps by (rule pipe_loop_cong) (rule assms)
  have l: "visit_projection f node val = visit_projection g node val"
    using assms by (rule visit_projection_cong)
  have m: "visit_value_projection f node val = visit_value_projection g node val"
    using assms by (rule visit_value_projection_cong)
  show ?thesis
    unfolding dispatch_def Let_def
    by (simp only: a b c d e f' g' h i j k l m)
qed

lemma visit_unfold: "visit cf node val = dispatch cf (visit cf) node val"
proof (cases node)
  case (Node t v cs)
  show ?thesis
    unfolding Node by (subst visit.simps) (rule dispatch_cong, simp)
qed

lemma visit_node:
  "visit cf (Node t v cs) val = dispatch cf (visit cf) (Node t v cs) val"
  by (rule visit_unfold)

lemmas eval_simps =
  visit_node dispatch_def field_def literal_def identity_def comparator_def
  or_expression_def filter_projection_def multi_select_list_def cmp3_def

section \<open>Equality and ordering comparators\<close>

lemma is_false_falsy: "is_false v = Inr (v \<in> set falsy_values)"
  by (cases v) (auto simp: falsy_values_def)

lemma richcmp_across_kinds:
  "kind_rank x \<noteq> kind_rank y \<Longrightarrow>
   py_richcmp opr x y = Inr (op3 opr (cmp3 (kind_rank x) (kind_rank y)))"
  by (cases x; cases y) simp_all

text \<open>
  Claim C2. The \<open>eq\<close> comparator separates booleans from numbers: \<open>eq(true, 1)\<close> and
  \<open>eq(false, 0)\<close> are false and \<open>eq(1, 1)\<close> is true; \<open>ne\<close> is the negation of the same
  equality, so \<open>ne(true, 1)\<close> is true. Stated for the comparator nodes on literal
  operands, for \<^verbatim>\<open>_equals\<close> itself, and, for arbitrary operand nodes, as \<open>ne\<close> returning
  the negated result of \<open>eq\<close>.
\<close>

theorem eq_type_aware:
  "visit cf (comparator ''eq'' (literal (VBool True)) (literal (VInt 1))) val = Inr (VBool False)
   \<and> visit cf (comparator ''eq'' (literal (VBool False)) (literal (VInt 0))) val = Inr (VBool False)
   \<and> visit cf (comparator ''eq'' (literal (VInt 1)) (literal (VInt 1))) val = Inr (VBool True)
   \<and> visit cf (comparator ''ne'' (literal (VBool True)) (literal (VInt 1))) val = Inr (VBool True)
   \<and> equals (VBool True) (VInt 1) = Inr False
   \<and> equals (VBool False) (VInt 0) = Inr False
   \<and> equals (VInt 1) (VInt 1) = Inr True
   \<and> not_equals (VBool True) (VInt 1) = Inr True
   \<and> visit cf (comparator ''ne'' a b) val =
       (case visit cf (comparator ''eq'' a b) val of
          Inl e \<Rightarrow> Inl e
        | Inr r \<Rightarrow> Inr (VBool (\<not> py_bool r)))"
proof -
  have lits:
    "visit cf (comparator ''eq'' (literal (VBool True)) (literal (VInt 1))) val = Inr (VBool False)"
    "visit cf (comparator ''eq'' (literal (VBool False)) (literal (VInt 0))) val = Inr (VBool False)"
    "visit cf (comparator ''eq'' (literal (VInt 1)) (literal (VInt 1))) val = Inr (VBool True)"
    "visit cf (comparator ''ne'' (literal (VBool True)) (literal (VInt 1))) val = Inr (VBool True)"
    by (simp_all add: eval_simps)
  have funs:
    "equals (VBool True) (VInt 1) = Inr False"
    "equals (VBool False) (VInt 0) = Inr False"
    "equals (VInt 1) (VInt 1) = Inr True"
    "not_equals (VBool True) (VInt 1) = Inr True"
    by simp_all
  have neg: "visit cf (comparator ''ne'' a b) val =
       (case visit cf (comparator ''eq'' a b) val of
          Inl e \<Rightarrow> Inl e
        | Inr r \<Rightarrow> Inr (VBool (\<not> py_bool r)))"
    by (simp add: eval_simps del: equals.simps split: sum.split)
  from lits funs neg show ?thesis by (intro conjI)
qed

text \<open>
  Claim C9. The boolean/number separation covers only the integers \<open>0\<close> and \<open>1\<close>:
  \<open>eq(true, 1.0)\<close> and \<open>eq(false, 0.0)\<close> are true, because the identity tests of
  \<^verbatim>\<open>_is_special_integer_case\<close> do not hold for floats. The special case answers true
  exactly when one operand is the integer \<open>0\<close> or \<open>1\<close> and the other a boolean.
\<close>

theorem eq_float_not_special:
  "equals (VBool True) (VFloat 1) = Inr True
   \<and> equals (VBool False) (VFloat 0) = Inr True
   \<and> visit cf (comparator ''eq'' (literal (VBool True)) (literal (VFloat 1))) val = Inr (VBool True)
   \<and> visit cf (comparator ''eq'' (literal (VBool False)) (literal (VFloat 0))) val = Inr (VBool True)
   \<and> is_special_integer_case (VBool True) (VFloat 1) = None
   \<and> is_special_integer_case (VBool False) (VFloat 0) = None
   \<and> (is_special_integer_case x y = Some True) =
       (x \<in> set [VInt 0, VInt 1] \<and> y \<in> set [VBool True, VBool False]
        \<or> y \<in> set [VInt 0, VInt 1] \<and> x \<in> set [VBool True, VBool False])"
proof -
  have a: "equals (VBool True) (VFloat 1) = Inr True"
    "equals (VBool False) (VFloat 0) = Inr True"
    "is_special_integer_case (VBool True) (VFloat 1) = None"
    "is_special_integer_case (VBool False) (VFloat 0) = None"
    by simp_all
  have b:
    "visit cf (comparator ''eq'' (literal (VBool True)) (literal (VFloat 1))) val = Inr (VBool True)"
    "visit cf (comparator ''eq'' (literal (VBool False)) (literal (VFloat 0))) val = Inr (VBool True)"
    by (simp_all add: eval_simps)
  have c: "(is_special_integer_case x y = Some True) =
       (x \<in> set [VInt 0, VInt 1] \<and> y \<in> set [VBool True, VBool False]
        \<or> y \<in> set [VInt 0, VInt 1] \<and> x \<in> set [VBool True, VBool False])"
    by auto
  from a b c show ?thesis by (intro conjI)
qed

text \<open>
  Claim C3 says that an ordering comparator on operands of incomparable types returns
  false. Python 2 orders a number before a string, so \<open>lt(1, "a")\<close> is true.
\<close>

theorem lt_number_string_counterexample:
  "visit no_functions (comparator ''lt'' (literal (VInt 1)) (literal (VStr ''a''))) VNone
     = Inr (VBool True)
   \<and> visit no_functions (comparator ''lt'' (literal (VInt 1)) (literal (VStr ''a''))) VNone
     \<noteq> Inr (VBool False)"
  by (simp add: eval_simps)

text \<open>
  Claim C3, amended. For operands of different kinds (\<^verbatim>\<open>None\<close>, number, deferred
  expression, dict, list, string) a comparator node named \<open>lt\<close>, \<open>lte\<close>, \<open>gt\<close> or
  \<open>gte\<close> raises nothing and returns the boolean given by Python 2's order of kinds:
  \<open>lt\<close> and \<open>lte\<close> are true exactly when the left kind comes first, \<open>gt\<close> and \<open>gte\<close>
  exactly when the right kind comes first.
\<close>

theorem ordering_across_kinds:
  assumes "visit cf c0 val = Inr x" and "visit cf c1 val = Inr y"
    and "kind_rank x \<noteq> kind_rank y"
  shows "visit cf (comparator ''lt'' c0 c1) val = Inr (VBool (kind_rank x < kind_rank y))
    \<and> visit cf (comparator ''lte'' c0 c1) val = Inr (VBool (kind_rank x < kind_rank y))
    \<and> visit cf (comparator ''gt'' c0 c1) val = Inr (VBool (kind_rank y < kind_rank x))
    \<and> visit cf (comparator ''gte'' c0 c1) val = Inr (VBool (kind_rank y < kind_rank x))"
  using assms
  by (auto simp add: visit_node dispatch_def comparator_def richcmp_across_kinds cmp3_def
        simp del: py_richcmp.simps)

theorem ordering_across_kinds_witness:
  "visit no_functions (comparator ''lt'' (literal (VInt 1)) (literal (VStr ''a''))) VNone
     = Inr (VBool True)
   \<and> visit no_functions (comparator ''gt'' (literal (VInt 1)) (literal (VStr ''a''))) VNone
     = Inr (VBool False)"
proof -
  have a: "visit no_functions (literal (VInt 1)) VNone = Inr (VInt 1)"
    by (simp add: eval_simps)
  have b: "visit no_functions (literal (VStr ''a'')) VNone = Inr (VStr ''a'')"
    by (simp add: eval_simps)
  have c: "kind_rank (VInt 1) \<noteq> kind_rank (VStr ''a'')" by simp
  from ordering_across_kinds [OF a b c] show ?thesis by simp
qed

section \<open>Dispatch on the node tag\<close>

text \<open>
  Claim C7. A node whose tag is none of the recognised node kinds makes \<open>visit\<close> fail
  with the error of \<^verbatim>\<open>default_visit\<close> (the specification's invalid-node error; in the
  source it is Python's \<^verbatim>\<open>NotImplementedError\<close>), whatever the node's payload, children
  and the current value are.
\<close>

theorem unknown_tag_fails:
  "t \<notin> set node_kinds \<Longrightarrow> visit cf (Node t v cs) val = Inl NotImplementedError"
  by (simp add: visit_node dispatch_def node_kinds_def)

theorem unknown_tag_fails_witness:
  "''bogus'' \<notin> set node_kinds
   \<and> visit no_functions (Node ''bogus'' None []) (VInt 1) = Inl NotImplementedError"
proof -
  have a: "''bogus'' \<notin> set node_kinds" by (simp add: node_kinds_def)
  from a unknown_tag_fails [OF a] show ?thesis by simp
qed

section \<open>Chaining: sub-expressions, pipes and index expressions\<close>

lemma chain_step_Inl:
  "foldl (\<lambda>r c. case r of Inl e \<Rightarrow> Inl e | Inr x \<Rightarrow> f c x) (Inl e) cs = Inl e"
  by (induction cs) simp_all

lemma sub_expression_loop_chain: "sub_expression_loop f cs val = spec_chain f cs val"
  unfolding spec_chain_def
  by (induction cs arbitrary: val) (simp_all add: chain_step_Inl split: sum.split)

lemma pipe_loop_chain: "pipe_loop f cs val = spec_chain f cs val"
  unfolding spec_chain_def
  by (induction cs arbitrary: val) (simp_all add: chain_step_Inl split: sum.split)

lemma index_expression_loop_chain: "index_expression_loop f cs val = spec_chain f cs val"
  unfolding spec_chain_def
  by (induction cs arbitrary: val) (simp_all add: chain_step_Inl split: sum.split)

text \<open>
  Claim C8. On the same children and the same input, a \<open>sub_expression\<close> node, a
  \<open>pipe\<close> node and an \<open>index_expression\<close> node evaluate to the same result: each
  folds the children left to right, the output of one child being the input of the
  next, and returns the last output. With no children the result is the input itself,
  and a chain extended by one child is the shorter chain followed by that child.
\<close>

theorem chaining_equivalent:
  "visit cf (Node ''sub_expression'' v1 cs) val = spec_chain (visit cf) cs val
   \<and> visit cf (Node ''pipe'' v2 cs) val = spec_chain (visit cf) cs val
   \<and> visit cf (Node ''index_expression'' v3 cs) val = spec_chain (visit cf) cs val
   \<and> visit cf (Node ''sub_expression'' v1 []) val = Inr val
   \<and> visit cf (Node ''sub_expression'' v1 (cs @ [c])) val =
       (case visit cf (Node ''sub_expression'' v1 cs) val of
          Inl e \<Rightarrow> Inl e
        | Inr x \<Rightarrow> visit cf c x)"
proof -
  have a: "visit cf (Node ''sub_expression'' v cs) val = spec_chain (visit cf) cs val" for v cs
    by (simp add: visit_node dispatch_def sub_expression_loop_chain)
  have b: "visit cf (Node ''pipe'' v2 cs) val = spec_chain (visit cf) cs val"
    by (simp add: visit_node dispatch_def pipe_loop_chain)
  have c: "visit cf (Node ''index_expression'' v3 cs) val = spec_chain (visit cf) cs val"
    by (simp add: visit_node dispatch_def index_expression_loop_chain)
  have d: "visit cf (Node ''sub_expression'' v1 []) val = Inr val"
    by (simp add: a spec_chain_def)
  have e: "visit cf (Node ''sub_expression'' v1 (cs @ [c])) val =
       (case visit cf (Node ''sub_expression'' v1 cs) val of
          Inl e \<Rightarrow> Inl e
        | Inr x \<Rightarrow> visit cf c x)"
    by (simp add: a spec_chain_def)
  from a b c d e show ?thesis by (intro conjI)
qed

section \<open>Navigational mismatches\<close>

text \<open>
  Claim C1. A \<open>field\<close> node on a value that is not a dict, an \<open>index\<close> node on a value
  that is not a list, a \<open>flatten\<close> node whose child evaluates to a non-list and a
  \<open>value_projection\<close> node whose child evaluates to a non-dict all return \<^verbatim>\<open>None\<close>;
  none of them raises, whatever the node's payload and remaining children are.
\<close>

theorem navigational_mismatch_null:
  "(\<not> is_dict val \<longrightarrow> visit cf (Node ''field'' v cs) val = Inr VNone)
   \<and> (\<not> is_list val \<longrightarrow> visit cf (Node ''index'' v cs) val = Inr VNone)
   \<and> (visit cf c val = Inr base \<and> \<not> is_list base
        \<longrightarrow> visit cf (Node ''flatten'' v (c # cs)) val = Inr VNone)
   \<and> (visit cf c val = Inr base \<and> \<not> is_dict base
        \<longrightarrow> visit cf (Node ''value_projection'' v (c # cs)) val = Inr VNone)"
proof -
  have a: "\<not> is_dict val \<Longrightarrow> visit cf (Node ''field'' v cs) val = Inr VNone"
    by (cases val) (simp_all add: visit_node dispatch_def)
  have b: "\<not> is_list val \<Longrightarrow> visit cf (Node ''index'' v cs) val = Inr VNone"
    by (cases val) (simp_all add: visit_node dispatch_def)
  have c: "visit cf c val = Inr base \<Longrightarrow> \<not> is_list base
        \<Longrightarrow> visit cf (Node ''flatten'' v (c # cs)) val = Inr VNone"
    by (cases base) (simp_all add: visit_node dispatch_def)
  have d: "visit cf c val = Inr base \<Longrightarrow> \<not> is_dict base
        \<Longrightarrow> visit cf (Node ''value_projection'' v (c # cs)) val = Inr VNone"
    by (cases base) (simp_all add: visit_node dispatch_def)
  from a b c d show ?thesis by blast
qed

theorem navigational_mismatch_null_witness:
  "visit no_functions (field ''a'') (VInt 5) = Inr VNone
   \<and> visit no_functions (Node ''index'' (Some (VInt 0)) []) (VStr ''not-a-list'') = Inr VNone
   \<and> visit no_functions (Node ''flatten'' None [identity]) (VDict [(''a'', VInt 1)]) = Inr VNone
   \<and> visit no_functions (Node ''value_projection'' None [identity, identity]) (VList [VInt 1])
       = Inr VNone"
proof -
  have i1: "visit no_functions identity (VDict [(''a'', VInt 1)]) = Inr (VDict [(''a'', VInt 1)])"
    by (simp add: eval_simps)
  have i2: "visit no_functions identity (VList [VInt 1]) = Inr (VList [VInt 1])"
    by (simp add: eval_simps)
  have a: "visit no_functions (field ''a'') (VInt 5) = Inr VNone"
    using navigational_mismatch_null [of "VInt 5" no_functions "Some (VStr ''a'')" "[]"]
    by (simp add: field_def)
  have b: "visit no_functions (Node ''index'' (Some (VInt 0)) []) (VStr ''not-a-list'') = Inr VNone"
    using navigational_mismatch_null [of "VStr ''not-a-list''" no_functions "Some (VInt 0)" "[]"]
    by simp
  have c: "visit no_functions (Node ''flatten'' None [identity]) (VDict [(''a'', VInt 1)]) = Inr VNone"
    using i1 navigational_mismatch_null
      [of "VDict [(''a'', VInt 1)]" no_functions None "[]" identity "VDict [(''a'', VInt 1)]"]
    by simp
  have d: "visit no_functions (Node ''value_projection'' None [identity, identity]) (VList [VInt 1])
       = Inr VNone"
    using i2 navigational_mismatch_null
      [of "VList [VInt 1]" no_functions None "[identity]" identity "VList [VInt 1]"]
    by simp
  from a b c d show ?thesis by (intro conjI)
qed

section \<open>Or-expressions\<close>

text \<open>
  Claim C4. An \<open>or_expression\<close> node returns the result of its left child whenever that
  result is outside the falsy set (the empty string, the empty list, the empty dict,
  \<^verbatim>\<open>None\<close> and \<^verbatim>\<open>False\<close>; the number \<open>0\<close> is outside), and then the result does not
  depend on the right child, which may be missing or may raise: it is not evaluated.
  When the left result is in the falsy set, the node returns what the right child
  evaluates to.
\<close>

theorem or_expression_falsy:
  "(visit cf left val = Inr matched \<and> matched \<notin> set falsy_values
      \<longrightarrow> visit cf (Node ''or_expression'' v (left # rest)) val = Inr matched)
   \<and> (visit cf left val = Inr matched \<and> matched \<in> set falsy_values
      \<longrightarrow> visit cf (Node ''or_expression'' v (left # right # rest)) val = visit cf right val)
   \<and> VInt 0 \<notin> set falsy_values
   \<and> set falsy_values = {VStr [], VList [], VDict [], VNone, VBool False}"
  by (simp add: visit_node dispatch_def is_false_falsy del: is_false.simps)
     (simp add: falsy_values_def)

theorem or_expression_falsy_witness:
  "visit no_functions (or_expression (literal (VInt 0)) (literal (VStr ''fallback''))) VNone
     = Inr (VInt 0)
   \<and> visit no_functions (Node ''or_expression'' None [literal (VInt 0), Node ''bogus'' None []]) VNone
     = Inr (VInt 0)
   \<and> visit no_functions (or_expression (literal (VStr [])) (literal (VStr ''fallback''))) VNone
     = Inr (VStr ''fallback'')"
proof -
  have l0: "visit no_functions (literal (VInt 0)) VNone = Inr (VInt 0)"
    by (simp add: eval_simps)
  have l1: "visit no_functions (literal (VStr [])) VNone = Inr (VStr [])"
    by (simp add: eval_simps)
  have l2: "visit no_functions (literal (VStr ''fallback'')) VNone = Inr (VStr ''fallback'')"
    by (simp add: eval_simps)
  have t: "VInt 0 \<notin> set falsy_values" by (simp add: falsy_values_def)
  have f: "VStr [] \<in> set falsy_values" by (simp add: falsy_values_def)
  have a: "visit no_functions (or_expression (literal (VInt 0)) (literal (VStr ''fallback''))) VNone
     = Inr (VInt 0)"
    using l0 t or_expression_falsy
      [of no_functions "literal (VInt 0)" VNone "VInt 0" None "[literal (VStr ''fallback'')]"]
    by (simp add: or_expression_def)
  have b: "visit no_functions (Node ''or_expression'' None [literal (VInt 0), Node ''bogus'' None []]) VNone
     = Inr (VInt 0)"
    using l0 t or_expression_falsy
      [of no_functions "literal (VInt 0)" VNone "VInt 0" None "[Node ''bogus'' None []]"]
    by simp
  have c: "visit no_functions (or_expression (literal (VStr [])) (literal (VStr ''fallback''))) VNone
     = Inr (VStr ''fallback'')"
    using l1 l2 f or_expression_falsy
      [of no_functions "literal (VStr [])" VNone "VStr []" None "[]" "literal (VStr ''fallback'')"]
    by (simp add: or_expression_def)
  from a b c show ?thesis by (intro conjI)
qed

section \<open>Multi-select lists\<close>

lemma multi_select_list_loop_map:
  "(\<And>c. c \<in> set cs \<Longrightarrow> f c val = Inr (g c)) \<Longrightarrow>
   multi_select_list_loop f cs val acc = Inr (acc @ map g cs)"
  by (induction cs arbitrary: acc) simp_all

text \<open>
  Claim C6. A \<open>multi_select_list\<close> node on the current value \<^verbatim>\<open>None\<close> returns \<^verbatim>\<open>None\<close>
  whatever its children are (none is evaluated: they may raise). On any other value it
  returns the list of its children's results, in child order; on \<open>{"a": 1, "b": 2}\<close>
  with the children \<open>field("a")\<close> and \<open>field("b")\<close> that is \<open>[1, 2]\<close>.
\<close>

theorem multi_select_list_rule:
  "visit cf (Node ''multi_select_list'' v cs) VNone = Inr VNone
   \<and> (val \<noteq> VNone \<and> (\<forall>c \<in> set cs. visit cf c val = Inr (g c))
        \<longrightarrow> visit cf (Node ''multi_select_list'' v cs) val = Inr (VList (map g cs)))
   \<and> visit cf (multi_select_list [field ''a'', field ''b'']) VNone = Inr VNone
   \<and> visit cf (multi_select_list [field ''a'', field ''b''])
        (VDict [(''a'', VInt 1), (''b'', VInt 2)]) = Inr (VList [VInt 1, VInt 2])"
proof -
  have a: "visit cf (Node ''multi_select_list'' v cs) VNone = Inr VNone" for v cs
    by (simp add: visit_node dispatch_def)
  have b: "visit cf (Node ''multi_select_list'' v cs) val = Inr (VList (map g cs))"
    if "val \<noteq> VNone" and "\<forall>c \<in> set cs. visit cf c val = Inr (g c)"
  proof -
    have "multi_select_list_loop (visit cf) cs val [] = Inr ([] @ map g cs)"
      using that(2) by (intro multi_select_list_loop_map) simp
    with that(1) show ?thesis by (simp add: visit_node dispatch_def)
  qed
  have c: "visit cf (multi_select_list [field ''a'', field ''b'']) VNone = Inr VNone"
    by (simp add: multi_select_list_def a)
  have d: "visit cf (multi_select_list [field ''a'', field ''b''])
        (VDict [(''a'', VInt 1), (''b'', VInt 2)]) = Inr (VList [VInt 1, VInt 2])"
    by (simp add: eval_simps)
  from a b c d show ?thesis by blast
qed

theorem multi_select_list_rule_witness:
  "visit no_functions (multi_select_list [literal (VInt 7), identity]) (VStr ''x'')
     = Inr (VList [VInt 7, VStr ''x''])"
proof -
  let ?g = "\<lambda>c. if c = identity then VStr ''x'' else VInt 7"
  have ne: "VStr ''x'' \<noteq> VNone" by simp
  have ch: "\<forall>c \<in> set [literal (VInt 7), identity].
              visit no_functions c (VStr ''x'') = Inr (?g c)"
    by (simp add: eval_simps)
  have lit: "literal (VInt 7) \<noteq> identity" by (simp add: literal_def identity_def)
  from ne ch multi_select_list_rule
    [of no_functions None "[literal (VInt 7), identity]" "VStr ''x''" ?g]
  have "visit no_functions (Node ''multi_select_list'' None [literal (VInt 7), identity]) (VStr ''x'')
     = Inr (VList (map ?g [literal (VInt 7), identity]))"
    by blast
  with lit show ?thesis by (simp add: multi_select_list_def)
qed

section \<open>Filter projections\<close>

lemma filter_projection_loop_rule:
  assumes "child cs 1 = Inr c1"
  shows "(\<And>e. e \<in> set xs \<Longrightarrow>
            f c2 e = Inr (p e) \<and> (py_bool (p e) \<longrightarrow> f c1 e = Inr (q e))) \<Longrightarrow>
     filter_projection_loop f c2 cs xs acc =
       Inr (acc @ filter (\<lambda>y. y \<noteq> VNone) (map q (filter (\<lambda>e. py_bool (p e)) xs)))"
proof (induction xs arbitrary: acc)
  case Nil
  show ?case by simp
next
  case (Cons x xs)
  have hx: "f c2 x = Inr (p x)" "py_bool (p x) \<Longrightarrow> f c1 x = Inr (q x)"
    using Cons.prems [of x] by simp_all
  have ih: "\<And>acc. filter_projection_loop f c2 cs xs acc =
       Inr (acc @ filter (\<lambda>y. y \<noteq> VNone) (map q (filter (\<lambda>e. py_bool (p e)) xs)))"
    using Cons.IH Cons.prems by simp
  show ?case
  proof (cases "py_bool (p x)")
    case True
    with hx assms ih show ?thesis by (simp del: child.simps)
  next
    case False
    with hx ih show ?thesis by (simp del: child.simps)
  qed
qed

text \<open>
  Claim C5. A \<open>filter_projection\<close> node returns \<^verbatim>\<open>None\<close> when its first child does not
  evaluate to a list. Otherwise the elements whose predicate (child 2) is not truthy are
  dropped, the remaining elements are projected by child 1 in their original order, and
  \<^verbatim>\<open>None\<close> results are omitted. On \<open>[{"a":1},{"a":2},{"a":3}]\<close> with the predicate
  \<open>a > 1\<close> and the projection \<open>field("a")\<close> the result is \<open>[2, 3]\<close>.
\<close>

theorem filter_projection_rule:
  "(visit cf c0 val = Inr base \<and> \<not> is_list base
      \<longrightarrow> visit cf (Node ''filter_projection'' v (c0 # rest)) val = Inr VNone)
   \<and> (visit cf c0 val = Inr (VList xs)
       \<and> (\<forall>e \<in> set xs. visit cf c2 e = Inr (p e)
                       \<and> (py_bool (p e) \<longrightarrow> visit cf c1 e = Inr (q e)))
      \<longrightarrow> visit cf (Node ''filter_projection'' v (c0 # c1 # c2 # rest)) val =
            Inr (VList (filter (\<lambda>y. y \<noteq> VNone) (map q (filter (\<lambda>e. py_bool (p e)) xs)))))
   \<and> visit cf
        (filter_projection identity (field ''a'') (comparator ''gt'' (field ''a'') (literal (VInt 1))))
        (VList [VDict [(''a'', VInt 1)], VDict [(''a'', VInt 2)], VDict [(''a'', VInt 3)]])
       = Inr (VList [VInt 2, VInt 3])"
proof -
  have a: "visit cf (Node ''filter_projection'' v (c0 # rest)) val = Inr VNone"
    if "visit cf c0 val = Inr base" and "\<not> is_list base"
    using that by (cases base) (simp_all add: visit_node dispatch_def)
  have b: "visit cf (Node ''filter_projection'' v (c0 # c1 # c2 # rest)) val =
            Inr (VList (filter (\<lambda>y. y \<noteq> VNone) (map q (filter (\<lambda>e. py_bool (p e)) xs))))"
    if base: "visit cf c0 val = Inr (VList xs)"
      and el: "\<forall>e \<in> set xs. visit cf c2 e = Inr (p e)
                       \<and> (py_bool (p e) \<longrightarrow> visit cf c1 e = Inr (q e))"
  proof -
    have ch: "child (c0 # c1 # c2 # rest) 1 = Inr c1" by simp
    have "filter_projection_loop (visit cf) c2 (c0 # c1 # c2 # rest) xs [] =
       Inr ([] @ filter (\<lambda>y. y \<noteq> VNone) (map q (filter (\<lambda>e. py_bool (p e)) xs)))"
      using el by (intro filter_projection_loop_rule [OF ch]) simp
    with base show ?thesis by (simp add: visit_node dispatch_def)
  qed
  have c: "visit cf
        (filter_projection identity (field ''a'') (comparator ''gt'' (field ''a'') (literal (VInt 1))))
        (VList [VDict [(''a'', VInt 1)], VDict [(''a'', VInt 2)], VDict [(''a'', VInt 3)]])
       = Inr (VList [VInt 2, VInt 3])"
    by (simp add: eval_simps)
  from a b c show ?thesis by blast
qed

theorem filter_projection_rule_witness:
  "visit no_functions (Node ''filter_projection'' None [identity]) (VInt 5) = Inr VNone
   \<and> visit no_functions
        (Node ''filter_projection'' None
           [identity, field ''a'', comparator ''gt'' (field ''a'') (literal (VInt 1))])
        (VList [VDict [(''a'', VInt 1)], VDict [(''a'', VInt 2)], VDict [(''b'', VInt 3)]])
       = Inr (VList [VInt 2])"
proof -
  let ?xs = "[VDict [(''a'', VInt 1)], VDict [(''a'', VInt 2)], VDict [(''b'', VInt 3)]]"
  let ?p = "\<lambda>e. VBool (e = VDict [(''a'', VInt 2)])"
  let ?q = "\<lambda>e. if e = VDict [(''a'', VInt 2)] then VInt 2 else VNone"
  let ?c2 = "comparator ''gt'' (field ''a'') (literal (VInt 1))"
  have i1: "visit no_functions identity (VInt 5) = Inr (VInt 5)"
    by (simp add: eval_simps)
  have n1: "\<not> is_list (VInt 5)" by simp
  have a: "visit no_functions (Node ''filter_projection'' None [identity]) (VInt 5) = Inr VNone"
    using i1 n1 filter_projection_rule [of no_functions identity "VInt 5" "VInt 5" None "[]"]
    by blast
  have i2: "visit no_functions identity (VList ?xs) = Inr (VList ?xs)"
    by (simp add: eval_simps)
  have el: "\<forall>e \<in> set ?xs. visit no_functions ?c2 e = Inr (?p e)
              \<and> (py_bool (?p e) \<longrightarrow> visit no_functions (field ''a'') e = Inr (?q e))"
    by (simp add: eval_simps)
  have "visit no_functions (Node ''filter_projection'' None [identity, field ''a'', ?c2])
          (VList ?xs) =
        Inr (VList (filter (\<lambda>y. y \<noteq> VNone) (map ?q (filter (\<lambda>e. py_bool (?p e)) ?xs))))"
    by (rule filter_projection_rule
          [where cf = no_functions and ?c0.0 = identity and val = "VList ?xs" and xs = ?xs
             and ?c2.0 = ?c2 and p = ?p and ?c1.0 = "field ''a''" and q = ?q and v = None
             and rest = "[]", THEN conjunct2, THEN conjunct1, THEN mp])
       (intro conjI i2 el)
  then have b: "visit no_functions (Node ''filter_projection'' None [identity, field ''a'', ?c2])
          (VList ?xs) = Inr (VList [VInt 2])"
    by simp
  from a b show ?thesis by (intro conjI)
qed

lemma filter_projection_loop_drop:
  assumes "f c2 e = Inr z" and "\<not> py_bool z"
  shows "filter_projection_loop f c2 cs (xs @ e # ys) acc =
         filter_projection_loop f c2 cs (xs @ ys) acc"
proof (induction xs arbitrary: acc)
  case Nil
  from assms show ?case by simp
next
  case (Cons x xs)
  then show ?case
    by (simp cong: sum.case_cong if_cong del: child.simps)
qed

text \<open>
  Claim C10. The predicate of a \<open>filter_projection\<close> is tested with Python's
  truthiness, not with the falsy set of or-expressions: an element whose predicate
  evaluates to the number \<open>0\<close> is excluded, so the result is the same as on the list
  without that element, although an \<open>or_expression\<close> whose left child evaluates to \<open>0\<close>
  returns that \<open>0\<close>.
\<close>

theorem filter_uses_host_truthiness:
  "(visit cf c2 e = Inr z \<and> z \<in> set [VInt 0, VFloat 0]
      \<longrightarrow> visit cf (Node ''filter_projection'' v [identity, c1, c2]) (VList (xs @ e # ys))
          = visit cf (Node ''filter_projection'' v [identity, c1, c2]) (VList (xs @ ys)))
   \<and> visit cf (filter_projection identity identity identity) (VList [VInt 0, VInt 1, VInt 2])
       = Inr (VList [VInt 1, VInt 2])
   \<and> visit cf (or_expression (literal (VInt 0)) right) val = Inr (VInt 0)
   \<and> \<not> py_bool (VInt 0)
   \<and> is_false (VInt 0) = Inr False"
proof -
  have a: "visit cf (Node ''filter_projection'' v [identity, c1, c2]) (VList (xs @ e # ys))
          = visit cf (Node ''filter_projection'' v [identity, c1, c2]) (VList (xs @ ys))"
    if "visit cf c2 e = Inr z" and "z \<in> set [VInt 0, VFloat 0]"
  proof -
    from that(2) have "\<not> py_bool z" by auto
    with that(1) have "filter_projection_loop (visit cf) c2 cs (xs @ e # ys) [] =
         filter_projection_loop (visit cf) c2 cs (xs @ ys) []" for cs
      by (rule filter_projection_loop_drop)
    then show ?thesis by (simp add: visit_node dispatch_def identity_def)
  qed
  have b: "visit cf (filter_projection identity identity identity) (VList [VInt 0, VInt 1, VInt 2])
       = Inr (VList [VInt 1, VInt 2])"
    by (simp add: eval_simps)
  have c: "visit cf (or_expression (literal (VInt 0)) right) val = Inr (VInt 0)"
    by (simp add: eval_simps)
  have d: "\<not> py_bool (VInt 0)" "is_false (VInt 0) = Inr False" by simp_all
  from a b c d show ?thesis by blast
qed

theorem filter_uses_host_truthiness_witness:
  "visit no_functions (Node ''filter_projection'' None [identity, identity, identity])
     (VList [VInt 1, VInt 0, VInt 2]) = Inr (VList [VInt 1, VInt 2])"
proof -
  have i: "visit no_functions identity (VInt 0) = Inr (VInt 0)"
    by (simp add: eval_simps)
  have m: "VInt 0 \<in> set [VInt 0, VFloat 0]" by simp
  have "visit no_functions (Node ''filter_projection'' None [identity, identity, identity])
          (VList ([VInt 1] @ VInt 0 # [VInt 2]))
        = visit no_functions (Node ''filter_projection'' None [identity, identity, identity])
          (VList ([VInt 1] @ [VInt 2]))"
    by (rule filter_uses_host_truthiness
          [where cf = no_functions and ?c2.0 = identity and e = "VInt 0" and z = "VInt 0"
             and xs = "[VInt 1]" and ys = "[VInt 2]" and ?c1.0 = identity and v = None,
           THEN conjunct1, THEN mp])
       (intro conjI i m)
  moreover have "visit no_functions
          (Node ''filter_projection'' None [identity, identity, identity])
          (VList ([VInt 1] @ [VInt 2]))
        = Inr (VList [VInt 1, VInt 2])"
    by (simp add: eval_simps)
  ultimately show ?thesis by simp
qed

end
